theory Spec2Isabelle
  imports Main "HOL-Library.Sublist"
begin

section \<open>Strings and the two token patterns of \<open>parseToken\<close>\<close>

text \<open>
  A JavaScript value that reaches \<open>parseToken\<close>, \<open>startFlow\<close> and the capture
  functions is modelled as \<open>string option\<close>: \<open>None\<close> is \<open>undefined\<close>, \<open>Some s\<close> is the
  string \<open>s\<close>. The only characters the patterns distinguish are ASCII, so a string is a
  list of \<open>char\<close>.
\<close>

type_synonym jsstring = "string option"

text \<open>The character class \<open>[A-Z0-9]\<close>.\<close>

definition upper_alnum :: "char \<Rightarrow> bool" where
  "upper_alnum c =
     (let n = (of_char c :: nat) in (65 \<le> n \<and> n \<le> 90) \<or> (48 \<le> n \<and> n \<le> 57))"

text \<open>
  \<open>[A-Z0-9]{17}\<close> read at the head of a string: the first seventeen characters exist
  and are all in the class. What follows them is not looked at.
\<close>

definition run17 :: "string \<Rightarrow> bool" where
  "run17 s = (17 \<le> length s \<and> list_all upper_alnum (take 17 s))"

text \<open>
  \<open>/^(EC-)?[A-Z0-9]{17}$/\<close>, the test of line 27. The pattern has no \<open>m\<close> flag, so
  \<open>$\<close> is the end of the input. The optional group is greedy: the matcher first tries
  with \<open>EC-\<close> and, when the rest fails, once more without it.
\<close>

definition match_bare :: "string \<Rightarrow> bool" where
  "match_bare s =
     ((prefix ''EC-'' s \<and> run17 (drop 3 s) \<and> length (drop 3 s) = 17)
      \<or> (run17 s \<and> length s = 17))"

text \<open>
  The group \<open>((EC-)?[A-Z0-9]{17})\<close> of line 33 read at the head of a string; the result
  is the text the outer group captured.
\<close>

definition match_group :: "string \<Rightarrow> string option" where
  "match_group s =
     (if prefix ''EC-'' s \<and> run17 (drop 3 s) then Some (take 20 s)
      else if run17 s then Some (take 17 s)
      else None)"

text \<open>\<open>/token=((EC-)?[A-Z0-9]{17})/\<close> tried at one start position.\<close>

definition match_url_at :: "string \<Rightarrow> string option" where
  "match_url_at s = (if prefix ''token='' s then match_group (drop 6 s) else None)"

text \<open>
  \<open>token.match(/token=((EC-)?[A-Z0-9]{17})/)\<close>: the pattern is not anchored, so the
  matcher tries every start position from the left and stops at the first that matches.
  The result is \<open>match[1]\<close>, or \<open>None\<close> when \<open>match\<close> is \<open>null\<close>.
\<close>

fun match_url :: "string \<Rightarrow> string option" where
  "match_url [] = None"
| "match_url (c # cs) =
     (case match_url_at (c # cs) of Some g \<Rightarrow> Some g | None \<Rightarrow> match_url cs)"

text \<open>
  \<open>parseToken\<close> (lines 19 to 38). \<open>!token\<close> holds for \<open>undefined\<close> and for the empty
  string.
\<close>

definition parseToken :: "jsstring \<Rightarrow> jsstring" where
  "parseToken token =
     (case token of
        None \<Rightarrow> None
      | Some t \<Rightarrow>
          if t = [] then None
          else if match_bare t then Some t
          else match_url t)"

subsection \<open>The token of the data model\<close>

text \<open>
  A token is seventeen characters of \<open>[A-Z0-9]\<close>, with or without the prefix \<open>EC-\<close>.
\<close>

definition Token :: "string \<Rightarrow> bool" where
  "Token s =
     (let body = (if take 3 s = ''EC-'' then drop 3 s else s)
      in length body = 17 \<and> list_all upper_alnum body)"

text \<open>
  Modelled from the spec: \<open>matchToken\<close> is imported from \<open>./util\<close>, which is not among
  the sources. The spec gives its negation, \<open>isUrlForm\<close>, as true when the input is not
  itself a bare canonical token.
\<close>

definition matchToken :: "jsstring \<Rightarrow> bool" where
  "matchToken token = (case token of None \<Rightarrow> False | Some t \<Rightarrow> Token t)"

text \<open>Whether a string occurs in another as a contiguous block.\<close>

fun occurs :: "string \<Rightarrow> string \<Rightarrow> bool" where
  "occurs p [] = (p = [])"
| "occurs p (c # cs) = (prefix p (c # cs) \<or> occurs p cs)"

text \<open>
  Following the spec's words \<open>token=<canonical>\<close>: no \<open>token=\<close> that is followed by a
  canonical token starts in \<open>s\<close> before position \<open>n\<close>.
\<close>

definition no_param_before :: "string \<Rightarrow> nat \<Rightarrow> bool" where
  "no_param_before s n =
     (\<forall>q c r. Token c \<and> s = q @ ''token='' @ c @ r \<longrightarrow> n \<le> length q)"

section \<open>The legacy namespace, its function values and the observable effects\<close>

text \<open>
  One call of \<open>getPaymentToken(resolve, reject)\<close> is an acquisition: its \<open>resolve\<close> and
  \<open>reject\<close> callbacks and the component bound to \<open>this\<close>. The three closures the call
  creates refer to nothing else, so an acquisition is named by a number.
\<close>

type_synonym acq = nat

text \<open>
  The function values that can stand in a slot of \<open>window.paypal.checkout\<close>: the
  function declarations of the module, the closures of an acquisition, and functions
  that are not code of this module.
\<close>

datatype func =
    FnSetup | FnInitXO | FnStartFlow | FnCloseFlow
  | CapInitXO acq | CapStartFlow acq | CapCloseFlow acq
  | Foreign nat

datatype jsval =
    Undefined | Null | Func func
  | EventsObject    \<comment> \<open>the object \<open>{ on(name) { ... } }\<close> of line 378\<close>
  | CheckoutObject  \<comment> \<open>a reference to the object \<open>window.paypal.checkout\<close>\<close>
  | Object nat      \<comment> \<open>any other object\<close>

fun truthy :: "jsval \<Rightarrow> bool" where
  "truthy Undefined = False"
| "truthy Null = False"
| "truthy _ = True"

record checkout_obj =
  setup_slot :: jsval
  initXO_slot :: jsval
  startFlow_slot :: jsval
  closeFlow_slot :: jsval
  events_slot :: jsval

text \<open>The object literal \<open>{}\<close>: every property reads \<open>undefined\<close>.\<close>

definition empty_obj :: checkout_obj where
  "empty_obj =
     \<lparr>setup_slot = Undefined, initXO_slot = Undefined, startFlow_slot = Undefined,
      closeFlow_slot = Undefined, events_slot = Undefined\<rparr>"

datatype level = LogDebug | LogInfo | LogWarning | LogError

datatype payload = NoPayload | TokenPayload jsstring

datatype url = UrlAbsent | UrlNull | UrlString string

datatype payment_token = GetPaymentToken | TokenString string | DeferToUrl

text \<open>
  The properties \<open>PayPalCheckout.init\<close> receives, as far as their values differ between
  the callers (the three handlers \<open>onPaymentAuthorize\<close>, \<open>onPaymentCancel\<close> and
  \<open>fallback\<close> are the same in every call).
\<close>

record props =
  p_uid :: jsstring
  p_paymentToken :: payment_token
  p_env :: jsstring
  p_url :: url

text \<open>
  What a caller passes to \<open>initPayPalCheckout\<close>: \<open>o_paymentToken = None\<close> when the
  object has no \<open>paymentToken\<close>, so that the default stays.
\<close>

record overrides =
  o_env :: jsstring
  o_url :: url
  o_paymentToken :: "payment_token option"

text \<open>
  Every call that leaves the module is an event: the log, the console, the eligibility
  predicate, \<open>redirect\<close>, the callbacks of an acquisition, and the component.
\<close>

datatype event =
    Log level string payload
  | ConsoleError string
  | ConsoleWarn string
  | IsEligible bool
  | Redirect jsstring
  | Resolve acq string
  | Reject acq string
  | UpdateProps acq jsstring
  | Close acq
  | Init props
  | Render

datatype error = Error string | TypeError

text \<open>
  The state: the object \<open>window.paypal.checkout\<close>, the two aliases of it under
  \<open>window.PAYPAL\<close>, the static flag of the component, \<open>window.pp_uid\<close>, and the events
  so far. Each event is kept with the contents of \<open>window.paypal.checkout\<close> at the moment
  of the call: that is what a callee that looked at the namespace would see.
\<close>

record state =
  checkout :: checkout_obj
  PAYPAL_checkout :: jsval
  PAYPAL_apps_checkout :: jsval
  autocloseParentTemplate :: bool
  pp_uid :: jsstring
  trace :: "(event \<times> checkout_obj) list"

text \<open>
  What the collaborators answer during one call: \<open>config.checkoutUrl\<close> and the result
  of \<open>isEligible()\<close>.
\<close>

record env =
  checkoutUrl :: string
  eligible :: bool

definition emit :: "event \<Rightarrow> state \<Rightarrow> state" where
  "emit e st = st\<lparr>trace := trace st @ [(e, checkout st)]\<rparr>"

definition events :: "state \<Rightarrow> event list" where
  "events st = map fst (trace st)"

text \<open>The triple of slots the acquisition protocol writes.\<close>

definition slots :: "checkout_obj \<Rightarrow> jsval \<times> jsval \<times> jsval" where
  "slots c = (initXO_slot c, startFlow_slot c, closeFlow_slot c)"

definition module_slots :: "jsval \<times> jsval \<times> jsval" where
  "module_slots = (Func FnInitXO, Func FnStartFlow, Func FnCloseFlow)"

text \<open>A template literal prints \<open>undefined\<close> as the word.\<close>

definition js_string :: "jsstring \<Rightarrow> string" where
  "js_string v = (case v of None \<Rightarrow> ''undefined'' | Some s \<Rightarrow> s)"

section \<open>The functions of \<open>interface.js\<close>\<close>

text \<open>\<open>getFullpageRedirectUrl\<close> (lines 41 to 45).\<close>

definition getFullpageRedirectUrl :: "env \<Rightarrow> jsstring \<Rightarrow> jsstring" where
  "getFullpageRedirectUrl e token =
     (let baseUrl = checkoutUrl e
      in if matchToken token then Some (baseUrl @ ''?token='' @ js_string token) else token)"

text \<open>The error both \<open>startFlow\<close> functions throw (lines 90 and 295).\<close>

definition expected_token :: "jsstring \<Rightarrow> error" where
  "expected_token token =
     Error (''Expected '' @ [CHR 0x22] @ js_string token @ [CHR 0x22]
            @ '' passed to window.paypal.checkout.startFlow to contain express-checkout payment token'')"

text \<open>\<open>reset\<close> (lines 64 to 71) assigns the module's own three functions.\<close>

definition reset :: "state \<Rightarrow> state" where
  "reset st =
     st\<lparr>checkout := (checkout st)
          \<lparr>initXO_slot := Func FnInitXO,
           startFlow_slot := Func FnStartFlow,
           closeFlow_slot := Func FnCloseFlow\<rparr>\<rparr>"

text \<open>
  \<open>getPaymentToken\<close> (lines 62 to 123): the call itself only assigns the three
  closures.
\<close>

definition getPaymentToken :: "acq \<Rightarrow> state \<Rightarrow> state" where
  "getPaymentToken a st =
     st\<lparr>checkout := (checkout st)
          \<lparr>initXO_slot := Func (CapInitXO a),
           startFlow_slot := Func (CapStartFlow a),
           closeFlow_slot := Func (CapCloseFlow a)\<rparr>\<rparr>"

text \<open>The closure of lines 75 to 77.\<close>

definition capture_initXO :: "state \<Rightarrow> (error + unit) \<times> state" where
  "capture_initXO st = (Inr (), emit (Log LogDebug ''paymenttoken_initxo'' NoPayload) st)"

text \<open>The closure of lines 81 to 108.\<close>

definition capture_startFlow :: "env \<Rightarrow> acq \<Rightarrow> jsstring \<Rightarrow> state \<Rightarrow> (error + unit) \<times> state" where
  "capture_startFlow e a token st =
     (let st1 = emit (Log LogDebug ''paymenttoken_startflow'' (TokenPayload token)) st;
          st2 = reset st1
      in case parseToken token of
           None \<Rightarrow>
             (Inl (expected_token token),
              emit (Log LogError ''paymenttoken_startflow_notoken'' (TokenPayload token)) st2)
         | Some ecToken \<Rightarrow>
             let st3 = emit (IsEligible (eligible e)) st2
             in if \<not> eligible e then
                  (Inr (),
                   emit (Redirect (getFullpageRedirectUrl e token))
                     (emit (Log LogDebug ''paymenttoken_startflow_ineligible''
                              (TokenPayload (Some ecToken))) st3))
                else
                  let st4 =
                    (if matchToken token then
                       emit (Log LogDebug ''paymenttoken_startflow_tokenpassed''
                               (TokenPayload token)) st3
                     else
                       emit (UpdateProps a token)
                         (emit (Log LogDebug ''paymenttoken_startflow_urlpassed''
                                  (TokenPayload token)) st3))
                  in (Inr (), emit (Resolve a ecToken) st4))"

text \<open>The closure of lines 112 to 122.\<close>

definition capture_closeFlow :: "acq \<Rightarrow> state \<Rightarrow> (error + unit) \<times> state" where
  "capture_closeFlow a st =
     (let st1 = emit (Log LogWarning ''paymenttoken_closeflow'' NoPayload) st;
          st2 = reset st1;
          st3 = emit (Reject a ''Close Flow Called'') st2
      in (Inr (), emit (Close a) st3))"

text \<open>
  \<open>initPayPalCheckout\<close> (lines 136 to 182), up to the call of \<open>PayPalCheckout.init\<close>;
  the caller's properties come last in the object literal and win.
\<close>

definition initPayPalCheckout :: "overrides \<Rightarrow> state \<Rightarrow> state" where
  "initPayPalCheckout ps st =
     (let st1 = emit (Log LogInfo ''init_checkout'' NoPayload) st;
          st2 = st1\<lparr>autocloseParentTemplate := False\<rparr>;
          uid = pp_uid st2
      in emit (Init \<lparr>p_uid = uid,
                     p_paymentToken =
                       (case o_paymentToken ps of None \<Rightarrow> GetPaymentToken | Some t \<Rightarrow> t),
                     p_env = o_env ps,
                     p_url = o_url ps\<rparr>) st2)"

text \<open>\<open>initXO\<close> (lines 265 to 274).\<close>

definition initXO :: "env \<Rightarrow> state \<Rightarrow> (error + unit) \<times> state" where
  "initXO e st =
     (let st1 = emit (Log LogDebug ''initxo'' NoPayload) st;
          st2 = emit (IsEligible (eligible e)) st1
      in if \<not> eligible e then (Inr (), st2)
         else (Inr (),
               emit Render
                 (initPayPalCheckout
                    \<lparr>o_env = None, o_url = UrlAbsent, o_paymentToken = None\<rparr> st2)))"

text \<open>\<open>startFlow\<close> (lines 287 to 307).\<close>

definition startFlow :: "env \<Rightarrow> jsstring \<Rightarrow> state \<Rightarrow> (error + unit) \<times> state" where
  "startFlow e token st =
     (let st1 = emit (Log LogDebug ''startflow'' (TokenPayload token)) st
      in case parseToken token of
           None \<Rightarrow>
             (Inl (expected_token token),
              emit (Log LogWarning ''startflow_notoken'' NoPayload) st1)
         | Some ecToken \<Rightarrow>
             let st2 = emit (IsEligible (eligible e)) st1
             in if \<not> eligible e then
                  (Inr (),
                   emit (Redirect (getFullpageRedirectUrl e token))
                     (emit (Log LogDebug ''startflow_ineligible'' NoPayload) st2))
                else
                  (Inr (),
                   emit Render
                     (initPayPalCheckout
                        \<lparr>o_env = None,
                         o_url = (if matchToken token then UrlNull
                                  else UrlString (js_string token)),
                         o_paymentToken = Some (TokenString ecToken)\<rparr> st2)))"

text \<open>\<open>closeFlow\<close> (lines 318 to 322).\<close>

definition closeFlow :: "state \<Rightarrow> (error + unit) \<times> state" where
  "closeFlow st =
     (Inr (),
      emit (ConsoleWarn ''Checkout is not open, can not be closed'')
        (emit (Log LogDebug ''closeflow'' NoPayload) st))"

text \<open>
  Lines 366 and 367: \<open>window.paypal.checkout\<close> is the object already there, or a new
  empty one. \<open>None\<close> stands for a page where \<open>window.paypal\<close> or its \<open>checkout\<close> is
  missing.
\<close>

definition namespace :: "checkout_obj option \<Rightarrow> checkout_obj" where
  "namespace c = (case c of None \<Rightarrow> empty_obj | Some obj \<Rightarrow> obj)"

text \<open>The text of line 370.\<close>

definition already_exists :: string where
  "already_exists =
     ''Error: window.paypal.checkout already exists. You may have inserted the ''
     @ ''checkout.js script more than once. Ignoring further attempts to assign to ''
     @ ''window.paypal.checkout.''"

text \<open>The guarded installation (lines 369 to 388).\<close>

definition install :: "state \<Rightarrow> state" where
  "install st =
     (if truthy (setup_slot (checkout st)) then emit (ConsoleError already_exists) st
      else
        st\<lparr>checkout := (checkout st)
             \<lparr>setup_slot := Func FnSetup,
              initXO_slot := Func FnInitXO,
              startFlow_slot := Func FnStartFlow,
              closeFlow_slot := Func FnCloseFlow,
              events_slot := EventsObject\<rparr>,
           PAYPAL_checkout := CheckoutObject,
           PAYPAL_apps_checkout := CheckoutObject\<rparr>)"

text \<open>
  The state of a page right after the script has run for the first time on it: \<open>c\<close> is
  what the page had under \<open>window.paypal.checkout\<close>, \<open>uid\<close> is \<open>window.pp_uid\<close>.
  Nothing is under \<open>window.PAYPAL\<close> yet, no call has been made, and the component's
  flag has not been cleared.
\<close>

definition load :: "checkout_obj option \<Rightarrow> jsstring \<Rightarrow> state" where
  "load c uid =
     install \<lparr>checkout = namespace c, PAYPAL_checkout = Undefined,
              PAYPAL_apps_checkout = Undefined, autocloseParentTemplate = True,
              pp_uid = uid, trace = []\<rparr>"

subsection \<open>Calling what a slot holds\<close>

text \<open>
  A call of a function value. \<open>None\<close>: the callee is not modelled (\<open>setup\<close> works on the
  document, a foreign function is not code of this module).
\<close>

fun apply_func :: "env \<Rightarrow> func \<Rightarrow> jsstring \<Rightarrow> state \<Rightarrow> ((error + unit) \<times> state) option" where
  "apply_func e FnInitXO arg st = Some (initXO e st)"
| "apply_func e FnStartFlow arg st = Some (startFlow e arg st)"
| "apply_func e FnCloseFlow arg st = Some (closeFlow st)"
| "apply_func e (CapInitXO a) arg st = Some (capture_initXO st)"
| "apply_func e (CapStartFlow a) arg st = Some (capture_startFlow e a arg st)"
| "apply_func e (CapCloseFlow a) arg st = Some (capture_closeFlow a st)"
| "apply_func e FnSetup arg st = None"
| "apply_func e (Foreign n) arg st = None"

text \<open>A call of a value: what is not a function throws a \<open>TypeError\<close>.\<close>

definition call_value :: "env \<Rightarrow> jsval \<Rightarrow> jsstring \<Rightarrow> state \<Rightarrow> ((error + unit) \<times> state) option" where
  "call_value e v arg st =
     (case v of Func f \<Rightarrow> apply_func e f arg st | _ \<Rightarrow> Some (Inl TypeError, st))"

text \<open>
  \<open>window.paypal.checkout.initXO()\<close>, \<open>window.paypal.checkout.startFlow(token)\<close> and
  \<open>window.paypal.checkout.closeFlow()\<close> as the page calls them.
\<close>

definition window_initXO :: "env \<Rightarrow> state \<Rightarrow> ((error + unit) \<times> state) option" where
  "window_initXO e st = call_value e (initXO_slot (checkout st)) None st"

definition window_startFlow :: "env \<Rightarrow> jsstring \<Rightarrow> state \<Rightarrow> ((error + unit) \<times> state) option" where
  "window_startFlow e token st = call_value e (startFlow_slot (checkout st)) token st"

definition window_closeFlow :: "env \<Rightarrow> state \<Rightarrow> ((error + unit) \<times> state) option" where
  "window_closeFlow e st = call_value e (closeFlow_slot (checkout st)) None st"

subsection \<open>Observing a call\<close>

text \<open>The events, and the trace entries, a call added to those of the state before it.\<close>

definition new_events :: "state \<Rightarrow> state \<Rightarrow> event list" where
  "new_events st st' = drop (length (events st)) (events st')"


text \<open>An event that settles the acquisition \<open>a\<close>: its \<open>resolve\<close> or its \<open>reject\<close> is called.\<close>

fun settles :: "acq \<Rightarrow> event \<Rightarrow> bool" where
  "settles a (Resolve b t) = (a = b)"
| "settles a (Reject b m) = (a = b)"
| "settles a _ = False"

text \<open>An event that belongs to rendering a component.\<close>

fun renders :: "event \<Rightarrow> bool" where
  "renders (Init p) = True"
| "renders Render = True"
| "renders _ = False"


section \<open>Facts about the token patterns\<close>

lemma upper_alnum_dash: "\<not> upper_alnum CHR ''-''"
  by (simp add: upper_alnum_def)

lemma take3_EC: "(take 3 s = ''EC-'') = prefix ''EC-'' s"
proof
  assume "take 3 s = ''EC-''"
  then have "s = ''EC-'' @ drop 3 s"
    by (metis append_take_drop_id)
  then show "prefix ''EC-'' s"
    by (metis prefixI)
next
  assume "prefix ''EC-'' s"
  then obtain zs where "s = ''EC-'' @ zs"
    by (auto simp: prefix_def)
  then show "take 3 s = ''EC-''"
    by simp
qed

lemma EC_not_run: "prefix ''EC-'' s \<Longrightarrow> \<not> list_all upper_alnum (take 17 s)"
  by (auto simp: prefix_def upper_alnum_dash)

lemma EC_prefix_append:
  "3 \<le> length c \<Longrightarrow> prefix ''EC-'' (c @ post) = prefix ''EC-'' c"
proof -
  assume len: "3 \<le> length c"
  have "us = []" if "''EC-'' = c @ us" for us
  proof -
    from that [symmetric] have "length (c @ us) = 3" by simp
    then have "length c + length us = 3" by simp
    with len have "length us = 0" by arith
    then show ?thesis by simp
  qed
  then show ?thesis
    by (auto simp: prefix_append)
qed

text \<open>The anchored pattern of line 27 accepts exactly the tokens of the data model.\<close>

lemma match_bare_iff_Token: "match_bare s = Token s"
proof (cases "prefix ''EC-'' s")
  case True
  then obtain zs where s: "s = ''EC-'' @ zs"
    by (auto simp: prefix_def)
  show ?thesis
    using s by (auto simp: match_bare_def Token_def run17_def upper_alnum_dash)
next
  case False
  then show ?thesis
    by (auto simp: match_bare_def Token_def run17_def take3_EC)
qed

lemma Token_nonempty: "Token s \<Longrightarrow> s \<noteq> []"
  by (auto simp: Token_def)

lemma parseToken_Token: "Token s \<Longrightarrow> parseToken (Some s) = Some s"
  by (simp add: parseToken_def match_bare_iff_Token Token_nonempty)

lemma match_group_Token:
  assumes "Token c"
  shows "match_group (c @ post) = Some c"
proof (cases "prefix ''EC-'' c")
  case True
  then obtain zs where c: "c = ''EC-'' @ zs"
    by (auto simp: prefix_def)
  with assms have "length zs = 17" "list_all upper_alnum zs"
    by (simp_all add: Token_def)
  then show ?thesis
    using c by (simp add: match_group_def run17_def)
next
  case False
  with assms have len: "length c = 17" and all: "list_all upper_alnum c"
    by (simp_all add: Token_def take3_EC)
  have "\<not> prefix ''EC-'' (c @ post)"
    using False len by (simp add: EC_prefix_append)
  then show ?thesis
    using len all by (simp add: match_group_def run17_def)
qed

lemma match_group_run:
  assumes "list_all upper_alnum run" and "17 \<le> length run"
  shows "match_group (run @ post) = Some (take 17 run)"
    and "match_group (''EC-'' @ run @ post) = Some (''EC-'' @ take 17 run)"
proof -
  have all17: "list_all upper_alnum (take 17 run)"
    using assms(1) by (auto simp: list_all_iff dest: in_set_takeD)
  then have "\<not> prefix ''EC-'' run"
    using EC_not_run by blast
  then have "\<not> prefix ''EC-'' (run @ post)"
    using assms(2) by (simp add: EC_prefix_append)
  then show "match_group (run @ post) = Some (take 17 run)"
    using assms(2) all17 by (simp add: match_group_def run17_def)
  show "match_group (''EC-'' @ run @ post) = Some (''EC-'' @ take 17 run)"
    using assms(2) all17 by (simp add: match_group_def run17_def)
qed

lemma match_group_is_Token:
  assumes "match_group s = Some g"
  shows "Token g"
proof (cases "prefix ''EC-'' s \<and> run17 (drop 3 s)")
  case True
  then obtain zs where s: "s = ''EC-'' @ zs"
    by (auto simp: prefix_def)
  with True have zs: "17 \<le> length zs" "list_all upper_alnum (take 17 zs)"
    by (simp_all add: run17_def)
  from assms True s have "g = ''EC-'' @ take 17 zs"
    by (simp add: match_group_def)
  then show ?thesis
    using zs by (simp add: Token_def)
next
  case False
  with assms have r: "run17 s" and g: "g = take 17 s"
    by (auto simp: match_group_def split: if_splits)
  from r have all: "list_all upper_alnum (take 17 (take 17 s))" and len: "length (take 17 s) = 17"
    by (simp_all add: run17_def)
  then have "\<not> prefix ''EC-'' (take 17 s)"
    using EC_not_run by blast
  then show ?thesis
    using all len g by (simp add: Token_def take3_EC del: take_take)
qed

text \<open>
  \<open>token=\<close> has no border: an occurrence that starts before another one ends before it
  starts.
\<close>

lemma token_border:
  "prefix ''token='' (p @ ''token='' @ r) \<Longrightarrow> p \<noteq> [] \<Longrightarrow> prefix ''token='' p"
  apply (cases p, simp)
  subgoal for a p1
    apply (cases p1, simp)
    subgoal for b p2
      apply (cases p2, simp)
      subgoal for c p3
        apply (cases p3, simp)
        subgoal for d p4
          apply (cases p4, simp)
          subgoal for e p5
            apply (cases p5, simp)
            apply simp
            done
          done
        done
      done
    done
  done

lemma match_url_skip:
  "\<not> occurs ''token='' pre \<Longrightarrow>
   match_url (pre @ ''token='' @ rest) = match_url (''token='' @ rest)"
proof (induction pre)
  case Nil
  then show ?case by simp
next
  case (Cons x xs)
  then have np: "\<not> prefix ''token='' (x # xs)" and no: "\<not> occurs ''token='' xs"
    by simp_all
  have "\<not> prefix ''token='' ((x # xs) @ ''token='' @ rest)"
    using token_border [of "x # xs" rest] np by blast
  then have "match_url_at ((x # xs) @ ''token='' @ rest) = None"
    by (simp only: match_url_at_def if_False)
  then show ?case
    using Cons.IH [OF no] by simp
qed

lemma match_url_here:
  "match_group rest = Some g \<Longrightarrow> match_url (''token='' @ rest) = Some g"
  by (simp add: match_url_at_def)

lemma match_url_absent: "\<not> occurs ''token='' s \<Longrightarrow> match_url s = None"
proof (induction s)
  case Nil
  then show ?case by simp
next
  case (Cons x xs)
  then have np: "\<not> prefix ''token='' (x # xs)" and no: "\<not> occurs ''token='' xs"
    by simp_all
  from np have "match_url_at (x # xs) = None"
    by (simp only: match_url_at_def if_False)
  then show ?case
    using Cons.IH [OF no] by simp
qed

lemma match_url_at_is_Token: "match_url_at s = Some g \<Longrightarrow> Token g"
  by (cases "prefix ''token='' s")
    (simp_all only: match_url_at_def if_True if_False match_group_is_Token option.distinct)

lemma match_url_is_Token: "match_url s = Some g \<Longrightarrow> Token g"
proof (induction s)
  case Nil
  then show ?case by simp
next
  case (Cons x xs)
  show ?case
  proof (cases "match_url_at (x # xs)")
    case None
    with Cons show ?thesis by simp
  next
    case (Some h)
    with Cons.prems have "h = g" by simp
    with Some show ?thesis by (simp only: match_url_at_is_Token)
  qed
qed

lemma match_url_defined:
  "match_url_at s2 = Some g \<Longrightarrow> \<exists>g'. match_url (s1 @ s2) = Some g'"
proof (induction s1)
  case Nil
  then show ?case by (cases s2) (simp_all add: match_url_at_def)
next
  case (Cons a s1)
  then show ?case by (cases "match_url_at (a # s1 @ s2)") simp_all
qed

text \<open>A match of the pattern of line 33 is a piece of the input, right after a \<open>token=\<close>.\<close>

lemma match_group_prefix: "match_group s = Some g \<Longrightarrow> \<exists>r. s = g @ r"
proof -
  assume "match_group s = Some g"
  then have "g = take 20 s \<or> g = take 17 s"
    by (auto simp: match_group_def split: if_splits)
  then show ?thesis
    by (metis append_take_drop_id)
qed

lemma match_url_at_occurs:
  assumes "match_url_at s = Some g"
  shows "\<exists>r. s = ''token='' @ g @ r"
proof -
  from assms have p: "prefix ''token='' s" and g: "match_group (drop 6 s) = Some g"
    by (auto simp: match_url_at_def split: if_splits)
  from p obtain zs where s: "s = ''token='' @ zs"
    by (auto simp: prefix_def)
  with g have "match_group zs = Some g" by simp
  then obtain r where "zs = g @ r"
    using match_group_prefix by blast
  with s show ?thesis by blast
qed

lemma match_url_occurs: "match_url s = Some g \<Longrightarrow> \<exists>p r. s = p @ ''token='' @ g @ r"
proof (induction s)
  case Nil
  then show ?case by simp
next
  case (Cons x xs)
  show ?case
  proof (cases "match_url_at (x # xs)")
    case None
    with Cons.prems have "match_url xs = Some g" by simp
    then obtain p r where "xs = p @ ''token='' @ g @ r"
      using Cons.IH by blast
    then have "x # xs = (x # p) @ ''token='' @ g @ r" by simp
    then show ?thesis by blast
  next
    case (Some h)
    with Cons.prems have "h = g" by simp
    with Some obtain r where "x # xs = ''token='' @ g @ r"
      using match_url_at_occurs by blast
    then have "x # xs = [] @ ''token='' @ g @ r" by simp
    then show ?thesis by blast
  qed
qed

text \<open>A string with \<open>token=\<close> in it is not a token: \<open>=\<close> is outside the class.\<close>

lemma not_Token_with_equals: "\<not> Token (pre @ ''token='' @ rest)"
proof
  assume t: "Token (pre @ ''token='' @ rest)"
  let ?s = "pre @ ''token='' @ rest"
  have eq: "CHR ''='' \<in> set (drop 3 ?s)"
  proof (cases "3 \<le> length pre")
    case True
    then show ?thesis by simp
  next
    case False
    then have "length pre = 0 \<or> length pre = 1 \<or> length pre = 2" by arith
    then show ?thesis by auto
  qed
  then have eq': "CHR ''='' \<in> set ?s"
    by (rule in_set_dropD)
  have "\<not> upper_alnum CHR ''=''"
    by (simp add: upper_alnum_def)
  with t eq eq' show False
    by (auto simp: Token_def Let_def list_all_iff split: if_splits)
qed

text \<open>The result of \<open>parseToken\<close> is a token whenever it is defined.\<close>

lemma parseToken_is_Token: "parseToken v = Some t \<Longrightarrow> Token t"
  by (auto simp: parseToken_def match_bare_iff_Token match_url_is_Token
      split: option.splits if_splits)

lemma parseToken_url:
  assumes "match_group rest = Some g"
  shows "\<exists>t p r. parseToken (Some (pre @ ''token='' @ rest)) = Some t \<and> Token t
           \<and> pre @ ''token='' @ rest = p @ ''token='' @ t @ r"
    and "\<not> occurs ''token='' pre \<Longrightarrow> parseToken (Some (pre @ ''token='' @ rest)) = Some g"
proof -
  let ?s = "pre @ ''token='' @ rest"
  have p: "parseToken (Some ?s) = match_url ?s"
    using not_Token_with_equals [of pre rest]
    by (simp add: parseToken_def match_bare_iff_Token)
  have "match_url_at (''token='' @ rest) = Some g"
    using assms by (simp add: match_url_at_def)
  from match_url_defined [OF this, of pre] obtain g' where g': "match_url ?s = Some g'"
    by blast
  from match_url_occurs [OF g'] obtain q r where "?s = q @ ''token='' @ g' @ r"
    by blast
  with p g' match_url_is_Token [OF g']
  show "\<exists>t p r. parseToken (Some ?s) = Some t \<and> Token t \<and> ?s = p @ ''token='' @ t @ r"
    by auto
  show "parseToken (Some ?s) = Some g" if "\<not> occurs ''token='' pre"
    using p match_url_skip [OF that, of rest] match_url_here [OF assms] by simp
qed

text \<open>At one position at most one token can be read.\<close>

lemma Token_unique:
  assumes "Token t" and "Token c" and "t @ r = c @ r'"
  shows "t = c"
proof -
  have g1: "match_group (t @ r) = Some t"
    using assms(1) by (rule match_group_Token)
  have g2: "match_group (c @ r') = Some c"
    using assms(2) by (rule match_group_Token)
  from g1 g2 assms(3) show ?thesis by simp
qed

lemma match_url_at_param: "Token c \<Longrightarrow> match_url_at (''token='' @ c @ r) = Some c"
  using match_group_Token [of c r] by (simp add: match_url_at_def)

text \<open>The match that \<open>match_url\<close> returns starts at the leftmost position that has one.\<close>

lemma match_url_leftmost:
  "match_url s = Some g \<Longrightarrow>
   \<exists>p r. s = p @ ''token='' @ g @ r \<and> no_param_before s (length p)"
proof (induction s)
  case Nil
  then show ?case by simp
next
  case (Cons x xs)
  show ?case
  proof (cases "match_url_at (x # xs)")
    case (Some h)
    with Cons.prems have "h = g" by simp
    with Some obtain r where "x # xs = ''token='' @ g @ r"
      using match_url_at_occurs by blast
    then have "x # xs = [] @ ''token='' @ g @ r
        \<and> no_param_before (x # xs) (length ([] :: string))"
      by (simp add: no_param_before_def)
    then show ?thesis by blast
  next
    case None
    with Cons.prems have "match_url xs = Some g" by simp
    then obtain p r where xs: "xs = p @ ''token='' @ g @ r"
      and left: "no_param_before xs (length p)"
      using Cons.IH by blast
    have "no_param_before (x # xs) (length (x # p))"
      unfolding no_param_before_def
    proof (intro allI impI)
      fix q c r'
      assume h: "Token c \<and> x # xs = q @ ''token='' @ c @ r'"
      show "length (x # p) \<le> length q"
      proof (cases q)
        case Nil
        with h have "match_url_at (x # xs) = Some c"
          using match_url_at_param [of c r'] by simp
        with None show ?thesis by simp
      next
        case (Cons y q')
        with h have "Token c \<and> xs = q' @ ''token='' @ c @ r'" by simp
        with left have "length p \<le> length q'"
          unfolding no_param_before_def by blast
        with Cons show ?thesis by simp
      qed
    qed
    moreover from xs have "x # xs = (x # p) @ ''token='' @ g @ r" by simp
    ultimately show ?thesis by blast
  qed
qed

text \<open>
  On a string with \<open>token=\<close> and a canonical token after it, \<open>parseToken\<close> returns the
  token of the leftmost such place.
\<close>

lemma parseToken_leftmost:
  assumes "Token c"
  shows "\<exists>t p r. parseToken (Some (pre @ ''token='' @ c @ post)) = Some t \<and> Token t
           \<and> pre @ ''token='' @ c @ post = p @ ''token='' @ t @ r
           \<and> no_param_before (pre @ ''token='' @ c @ post) (length p)"
    and "no_param_before (pre @ ''token='' @ c @ post) (length pre) \<Longrightarrow>
         parseToken (Some (pre @ ''token='' @ c @ post)) = Some c"
proof -
  let ?s = "pre @ ''token='' @ c @ post"
  have p: "parseToken (Some ?s) = match_url ?s"
    using not_Token_with_equals [of pre "c @ post"]
    by (simp add: parseToken_def match_bare_iff_Token)
  from match_url_defined [OF match_url_at_param [OF assms, of post], of pre]
  obtain g where g: "match_url ?s = Some g"
    by auto
  from match_url_leftmost [OF g] obtain q r
    where s: "?s = q @ ''token='' @ g @ r" and left: "no_param_before ?s (length q)"
    by blast
  have tg: "Token g"
    using g by (rule match_url_is_Token)
  from p g tg s left
  show "\<exists>t p r. parseToken (Some ?s) = Some t \<and> Token t \<and> ?s = p @ ''token='' @ t @ r
      \<and> no_param_before ?s (length p)"
    by auto
  show "parseToken (Some ?s) = Some c" if mine: "no_param_before ?s (length pre)"
  proof -
    from left assms have "length q \<le> length pre"
      unfolding no_param_before_def by blast
    moreover from mine tg s have "length pre \<le> length q"
      unfolding no_param_before_def by blast
    ultimately have len: "length q = length pre" by simp
    with s have "q = pre" and "''token='' @ g @ r = ''token='' @ c @ post"
      by (simp_all add: append_eq_append_conv)
    then have "g @ r = c @ post" by simp
    with tg assms have "g = c" by (rule Token_unique)
    with p g show ?thesis by simp
  qed
qed

text \<open>A way to check that no match starts before a position.\<close>

lemma no_param_beforeI:
  assumes "list_all (\<lambda>i. match_url_at (drop i s) = None) [0..<n]"
  shows "no_param_before s n"
  unfolding no_param_before_def
proof (intro allI impI)
  fix q c r
  assume h: "Token c \<and> s = q @ ''token='' @ c @ r"
  show "n \<le> length q"
  proof (rule ccontr)
    assume "\<not> n \<le> length q"
    then have "length q \<in> set [0..<n]" by simp
    with assms have "match_url_at (drop (length q) s) = None"
      by (simp add: list_all_iff)
    moreover from h have "match_url_at (drop (length q) s) = Some c"
      using match_url_at_param [of c r] by simp
    ultimately show False by simp
  qed
qed

text \<open>The first seventeen characters of a run are a token, with and without \<open>EC-\<close>.\<close>

lemma run_Token:
  assumes "list_all upper_alnum run" and "17 \<le> length run"
  shows "Token (take 17 run)" and "Token (''EC-'' @ take 17 run)"
proof -
  have all17: "list_all upper_alnum (take 17 run)"
    using assms(1) by (auto simp: list_all_iff dest: in_set_takeD)
  have len: "length (take 17 run) = 17"
    using assms(2) by simp
  have "\<not> prefix ''EC-'' (take 17 run)"
    using all17 len EC_not_run [of "take 17 run"] by auto
  with all17 len show "Token (take 17 run)"
    by (simp add: Token_def take3_EC del: take_take)
  from all17 len show "Token (''EC-'' @ take 17 run)"
    by (simp add: Token_def)
qed

section \<open>Facts about the state\<close>

lemma emit_simps:
  "checkout (emit ev st) = checkout st"
  "trace (emit ev st) = trace st @ [(ev, checkout st)]"
  "events (emit ev st) = events st @ [ev]"
  by (simp_all add: emit_def events_def)

lemma reset_simps:
  "trace (reset st) = trace st"
  "events (reset st) = events st"
  "slots (checkout (reset st)) = module_slots"
  "reset (getPaymentToken a st) = reset st"
  "checkout (reset (emit ev st)) = checkout (reset st)"
  by (simp_all add: reset_def events_def slots_def module_slots_def getPaymentToken_def emit_def)

lemma getPaymentToken_simps:
  "trace (getPaymentToken a st) = trace st"
  "events (getPaymentToken a st) = events st"
  "slots (checkout (getPaymentToken a st))
     = (Func (CapInitXO a), Func (CapStartFlow a), Func (CapCloseFlow a))"
  "startFlow_slot (checkout (getPaymentToken a st)) = Func (CapStartFlow a)"
  "closeFlow_slot (checkout (getPaymentToken a st)) = Func (CapCloseFlow a)"
  "initXO_slot (checkout (getPaymentToken a st)) = Func (CapInitXO a)"
  by (simp_all add: getPaymentToken_def events_def slots_def)

lemma new_events_append: "events st' = events st @ evs \<Longrightarrow> new_events st st' = evs"
  by (simp add: new_events_def)


lemma reset_same: "slots (checkout st) = module_slots \<Longrightarrow> checkout (reset st) = checkout st"
  by (simp add: reset_def slots_def module_slots_def)

lemma window_startFlow_armed:
  "window_startFlow e token (getPaymentToken a st)
     = Some (capture_startFlow e a token (getPaymentToken a st))"
  by (simp add: window_startFlow_def call_value_def getPaymentToken_simps)

lemma window_closeFlow_armed:
  "window_closeFlow e (getPaymentToken a st) = Some (capture_closeFlow a (getPaymentToken a st))"
  by (simp add: window_closeFlow_def call_value_def getPaymentToken_simps)

text \<open>The state right after the script has run on an empty page.\<close>

lemma load_empty:
  "checkout (load None uid)
     = \<lparr>setup_slot = Func FnSetup, initXO_slot = Func FnInitXO,
        startFlow_slot = Func FnStartFlow, closeFlow_slot = Func FnCloseFlow,
        events_slot = EventsObject\<rparr>"
  "trace (load None uid) = []"
  "events (load None uid) = []"
  "slots (checkout (load None uid)) = module_slots"
  by (simp_all add: load_def install_def namespace_def empty_obj_def events_def slots_def
      module_slots_def)

text \<open>What the capture of \<open>startFlow\<close> does in each of its four branches.\<close>

lemma capture_startFlow_notoken:
  assumes "parseToken token = None"
  shows "fst (capture_startFlow e a token st) = Inl (expected_token token)"
    and "trace (snd (capture_startFlow e a token st))
           = trace st @ [(Log LogDebug ''paymenttoken_startflow'' (TokenPayload token), checkout st),
                         (Log LogError ''paymenttoken_startflow_notoken'' (TokenPayload token),
                          checkout (reset st))]"
    and "checkout (snd (capture_startFlow e a token st)) = checkout (reset st)"
  using assms by (simp_all add: capture_startFlow_def Let_def emit_simps reset_simps)

lemma capture_startFlow_ineligible:
  assumes "parseToken token = Some t" and "\<not> eligible e"
  shows "fst (capture_startFlow e a token st) = Inr ()"
    and "trace (snd (capture_startFlow e a token st))
           = trace st @ [(Log LogDebug ''paymenttoken_startflow'' (TokenPayload token), checkout st),
                         (IsEligible False, checkout (reset st)),
                         (Log LogDebug ''paymenttoken_startflow_ineligible'' (TokenPayload (Some t)),
                          checkout (reset st)),
                         (Redirect (getFullpageRedirectUrl e token), checkout (reset st))]"
    and "checkout (snd (capture_startFlow e a token st)) = checkout (reset st)"
  using assms by (simp_all add: capture_startFlow_def Let_def emit_simps reset_simps)

lemma capture_startFlow_token:
  assumes "parseToken token = Some t" and "eligible e" and "matchToken token"
  shows "fst (capture_startFlow e a token st) = Inr ()"
    and "trace (snd (capture_startFlow e a token st))
           = trace st @ [(Log LogDebug ''paymenttoken_startflow'' (TokenPayload token), checkout st),
                         (IsEligible True, checkout (reset st)),
                         (Log LogDebug ''paymenttoken_startflow_tokenpassed'' (TokenPayload token),
                          checkout (reset st)),
                         (Resolve a t, checkout (reset st))]"
    and "checkout (snd (capture_startFlow e a token st)) = checkout (reset st)"
  using assms by (simp_all add: capture_startFlow_def Let_def emit_simps reset_simps)

lemma capture_startFlow_url:
  assumes "parseToken token = Some t" and "eligible e" and "\<not> matchToken token"
  shows "fst (capture_startFlow e a token st) = Inr ()"
    and "trace (snd (capture_startFlow e a token st))
           = trace st @ [(Log LogDebug ''paymenttoken_startflow'' (TokenPayload token), checkout st),
                         (IsEligible True, checkout (reset st)),
                         (Log LogDebug ''paymenttoken_startflow_urlpassed'' (TokenPayload token),
                          checkout (reset st)),
                         (UpdateProps a token, checkout (reset st)),
                         (Resolve a t, checkout (reset st))]"
    and "checkout (snd (capture_startFlow e a token st)) = checkout (reset st)"
  using assms by (simp_all add: capture_startFlow_def Let_def emit_simps reset_simps)

lemma capture_closeFlow_trace:
  "fst (capture_closeFlow a st) = Inr ()"
  "trace (snd (capture_closeFlow a st))
     = trace st @ [(Log LogWarning ''paymenttoken_closeflow'' NoPayload, checkout st),
                   (Reject a ''Close Flow Called'', checkout (reset st)),
                   (Close a, checkout (reset st))]"
  "checkout (snd (capture_closeFlow a st)) = checkout (reset st)"
  by (simp_all add: capture_closeFlow_def Let_def emit_simps reset_simps)

lemma events_of_trace: "trace st' = trace st @ tr \<Longrightarrow> events st' = events st @ map fst tr"
  by (simp add: events_def)


text \<open>What the module's \<open>startFlow\<close> does in its first two branches.\<close>

lemma startFlow_notoken:
  assumes "parseToken token = None"
  shows "fst (startFlow e token st) = Inl (expected_token token)"
    and "events (snd (startFlow e token st))
           = events st @ [Log LogDebug ''startflow'' (TokenPayload token),
                          Log LogWarning ''startflow_notoken'' NoPayload]"
    and "checkout (snd (startFlow e token st)) = checkout st"
  using assms by (simp_all add: startFlow_def Let_def emit_simps)

lemma startFlow_ineligible:
  assumes "parseToken token = Some t" and "\<not> eligible e"
  shows "fst (startFlow e token st) = Inr ()"
    and "events (snd (startFlow e token st))
           = events st @ [Log LogDebug ''startflow'' (TokenPayload token),
                          IsEligible False,
                          Log LogDebug ''startflow_ineligible'' NoPayload,
                          Redirect (getFullpageRedirectUrl e token)]"
    and "checkout (snd (startFlow e token st)) = checkout st"
  using assms by (simp_all add: startFlow_def Let_def emit_simps)

lemma getFullpageRedirectUrl_string:
  "getFullpageRedirectUrl e (Some s)
     = Some (if Token s then checkoutUrl e @ ''?token='' @ s else s)"
  by (simp add: getFullpageRedirectUrl_def matchToken_def js_string_def)

lemma window_startFlow_loaded:
  "window_startFlow e token (load None uid) = Some (startFlow e token (load None uid))"
  by (simp add: window_startFlow_def call_value_def load_empty)

text \<open>The two branches of the installation.\<close>

lemma install_skipped:
  "truthy (setup_slot (checkout st)) \<Longrightarrow> install st = emit (ConsoleError already_exists) st"
  by (simp add: install_def)

lemma install_truthy: "truthy (setup_slot (checkout (install st)))"
  by (simp add: install_def emit_simps)

section \<open>The claims\<close>

subsection \<open>C6: what \<open>parseToken\<close> returns\<close>

text \<open>
  C6, as stated, fails. The claim: for every string that contains \<open>token=\<close> followed by a
  canonical token, \<open>parseToken\<close> returns that token. The URL below has the form
  \<open><anything>?token=<canonical>\<close> with the canonical token \<open>BBBBBBBBBBBBBBBBB\<close>, and
  \<open>parseToken\<close> returns \<open>AAAAAAAAAAAAAAAAA\<close>: the pattern of line 33 stops at the
  leftmost match.
\<close>

theorem parseToken_leftmost_counterexample:
  "Token ''BBBBBBBBBBBBBBBBB''
   \<and> parseToken (Some (''a?token=AAAAAAAAAAAAAAAAA&b'' @ ''?token='' @ ''BBBBBBBBBBBBBBBBB''))
       = Some ''AAAAAAAAAAAAAAAAA''
   \<and> parseToken (Some (''a?token=AAAAAAAAAAAAAAAAA&b'' @ ''?token='' @ ''BBBBBBBBBBBBBBBBB''))
       \<noteq> Some ''BBBBBBBBBBBBBBBBB''"
  by code_simp

text \<open>
  C6, amended. (1) A canonical token is returned as it is. (2) On a string that contains
  \<open>token=\<close> followed by a canonical token, \<open>parseToken\<close> returns the canonical token
  that follows the leftmost \<open>token=\<close> that is followed by one: the result \<open>t\<close> stands
  after a \<open>token=\<close> at a position \<open>p\<close> before which no \<open>token=\<close> with a canonical
  token starts. So the result is \<open>c\<close> itself whenever no \<open>token=\<close> with a canonical
  token starts before the one of \<open>c\<close>, in particular when \<open>token=\<close> does not occur
  before it. (3) A string that is not a canonical token and has no \<open>token=\<close> in it,
  \<open>undefined\<close> and the empty string give \<open>undefined\<close>.
\<close>

theorem parseToken_cases:
  "(Token s \<longrightarrow> parseToken (Some s) = Some s)
   \<and> (Token c \<longrightarrow>
        (\<exists>t p r. parseToken (Some (pre @ ''token='' @ c @ post)) = Some t \<and> Token t
           \<and> pre @ ''token='' @ c @ post = p @ ''token='' @ t @ r
           \<and> no_param_before (pre @ ''token='' @ c @ post) (length p)))
   \<and> (Token c \<and> no_param_before (pre @ ''token='' @ c @ post) (length pre) \<longrightarrow>
        parseToken (Some (pre @ ''token='' @ c @ post)) = Some c)
   \<and> (Token c \<and> \<not> occurs ''token='' pre \<longrightarrow>
        parseToken (Some (pre @ ''token='' @ c @ post)) = Some c)
   \<and> (\<not> Token u \<and> \<not> occurs ''token='' u \<longrightarrow> parseToken (Some u) = None)
   \<and> parseToken None = None
   \<and> parseToken (Some '''') = None"
proof -
  have bare: "parseToken (Some s) = Some s" if "Token s"
    using that by (rule parseToken_Token)
  have some: "\<exists>t p r. parseToken (Some (pre @ ''token='' @ c @ post)) = Some t \<and> Token t
      \<and> pre @ ''token='' @ c @ post = p @ ''token='' @ t @ r
      \<and> no_param_before (pre @ ''token='' @ c @ post) (length p)"
    if "Token c"
    using that by (rule parseToken_leftmost(1))
  have left: "parseToken (Some (pre @ ''token='' @ c @ post)) = Some c"
    if "Token c" and "no_param_before (pre @ ''token='' @ c @ post) (length pre)"
    using that by (rule parseToken_leftmost(2))
  have here: "parseToken (Some (pre @ ''token='' @ c @ post)) = Some c"
    if "Token c" and "\<not> occurs ''token='' pre"
    using parseToken_url(2) [OF match_group_Token [OF that(1)] that(2)] .
  have none: "parseToken (Some u) = None" if "\<not> Token u" and "\<not> occurs ''token='' u"
    using that by (simp add: parseToken_def match_bare_iff_Token match_url_absent)
  have undef: "parseToken None = None" and empty: "parseToken (Some '''') = None"
    by (simp_all add: parseToken_def)
  from bare some left here none undef empty show ?thesis
    by blast
qed

theorem parseToken_cases_witness:
  "Token ''ABCDE12345FGHIJ67''
   \<and> parseToken (Some ''ABCDE12345FGHIJ67'') = Some ''ABCDE12345FGHIJ67''
   \<and> Token ''EC-ABCDE12345FGHIJ67''
   \<and> \<not> occurs ''token='' ''https://www.paypal.com/checkoutnow?''
   \<and> parseToken (Some (''https://www.paypal.com/checkoutnow?'' @ ''token=''
         @ ''EC-ABCDE12345FGHIJ67'' @ ''&useraction=commit'')) = Some ''EC-ABCDE12345FGHIJ67''
   \<and> Token ''AAAAAAAAAAAAAAAAA''
   \<and> no_param_before (''u?token=x&'' @ ''token='' @ ''AAAAAAAAAAAAAAAAA''
         @ ''&token=BBBBBBBBBBBBBBBBB'') (length ''u?token=x&'')
   \<and> parseToken (Some (''u?token=x&'' @ ''token='' @ ''AAAAAAAAAAAAAAAAA''
         @ ''&token=BBBBBBBBBBBBBBBBB'')) = Some ''AAAAAAAAAAAAAAAAA''
   \<and> \<not> Token ''not-a-token''
   \<and> \<not> occurs ''token='' ''not-a-token''
   \<and> parseToken (Some ''not-a-token'') = None"
proof -
  have h1: "Token ''ABCDE12345FGHIJ67''" by code_simp
  have h2: "Token ''EC-ABCDE12345FGHIJ67''" by code_simp
  have h3: "\<not> occurs ''token='' ''https://www.paypal.com/checkoutnow?''" by code_simp
  have h4: "\<not> Token ''not-a-token''" by code_simp
  have h5: "\<not> occurs ''token='' ''not-a-token''" by code_simp
  have h6: "Token ''AAAAAAAAAAAAAAAAA''" by code_simp
  have "list_all (\<lambda>i. match_url_at (drop i (''u?token=x&'' @ ''token='' @ ''AAAAAAAAAAAAAAAAA''
      @ ''&token=BBBBBBBBBBBBBBBBB'')) = None) [0..<length ''u?token=x&'']"
    by code_simp
  then have h7: "no_param_before (''u?token=x&'' @ ''token='' @ ''AAAAAAAAAAAAAAAAA''
      @ ''&token=BBBBBBBBBBBBBBBBB'') (length ''u?token=x&'')"
    by (rule no_param_beforeI)
  from parseToken_cases [of "''ABCDE12345FGHIJ67''" "''EC-ABCDE12345FGHIJ67''"
      "''https://www.paypal.com/checkoutnow?''" "''&useraction=commit''" "''not-a-token''"]
    h1 h2 h3 h4 h5
  have a: "parseToken (Some ''ABCDE12345FGHIJ67'') = Some ''ABCDE12345FGHIJ67''"
    and b: "parseToken (Some (''https://www.paypal.com/checkoutnow?'' @ ''token=''
         @ ''EC-ABCDE12345FGHIJ67'' @ ''&useraction=commit'')) = Some ''EC-ABCDE12345FGHIJ67''"
    and c: "parseToken (Some ''not-a-token'') = None"
    by blast+
  from parseToken_cases [of "''ABCDE12345FGHIJ67''" "''AAAAAAAAAAAAAAAAA''"
      "''u?token=x&''" "''&token=BBBBBBBBBBBBBBBBB''" "''not-a-token''"]
    h6 h7
  have d: "parseToken (Some (''u?token=x&'' @ ''token='' @ ''AAAAAAAAAAAAAAAAA''
         @ ''&token=BBBBBBBBBBBBBBBBB'')) = Some ''AAAAAAAAAAAAAAAAA''"
    by blast
  from h1 h2 h3 h4 h5 h6 h7 a b c d show ?thesis
    by blast
qed

subsection \<open>C10: a run of more than seventeen characters after \<open>token=\<close>\<close>

text \<open>
  C10, as stated, fails. The claim: on any string in which \<open>token=\<close> is followed by more
  than seventeen characters of \<open>[A-Z0-9]\<close>, \<open>parseToken\<close> returns the first seventeen
  characters of the run. In the string below the only such run is the one of eighteen
  \<open>B\<close>, and \<open>parseToken\<close> returns the token of an earlier parameter.
\<close>

theorem parseToken_long_run_counterexample:
  "list_all upper_alnum ''BBBBBBBBBBBBBBBBBB''
   \<and> length ''BBBBBBBBBBBBBBBBBB'' = 18
   \<and> take 17 ''BBBBBBBBBBBBBBBBBB'' = ''BBBBBBBBBBBBBBBBB''
   \<and> parseToken (Some (''x?token=AAAAAAAAAAAAAAAAA&'' @ ''token='' @ ''BBBBBBBBBBBBBBBBBB''))
       = Some ''AAAAAAAAAAAAAAAAA''
   \<and> parseToken (Some (''x?token=AAAAAAAAAAAAAAAAA&'' @ ''token='' @ ''BBBBBBBBBBBBBBBBBB''))
       \<noteq> Some (take 17 ''BBBBBBBBBBBBBBBBBB'')"
  by code_simp

text \<open>
  C10, amended. A string in which \<open>token=\<close> is followed by more than seventeen
  characters of \<open>[A-Z0-9]\<close> is not a bare token, and the run is not a token; all the
  same \<open>parseToken\<close> returns a defined canonical token: the one that follows the
  leftmost \<open>token=\<close> that is followed by a canonical token. It is the first seventeen
  characters of the run (after \<open>EC-\<close> when the run is prefixed so) whenever no
  \<open>token=\<close> with a canonical token starts earlier in the string, in particular when
  \<open>token=\<close> does not occur earlier: the pattern of line 33 has no anchor on its right.
\<close>

theorem parseToken_long_run:
  assumes "list_all upper_alnum run" and "17 < length run"
  shows "\<not> Token (pre @ ''token='' @ run @ post) \<and> \<not> Token run
     \<and> (\<exists>t p r. parseToken (Some (pre @ ''token='' @ run @ post)) = Some t \<and> Token t
           \<and> pre @ ''token='' @ run @ post = p @ ''token='' @ t @ r
           \<and> no_param_before (pre @ ''token='' @ run @ post) (length p))
     \<and> (no_param_before (pre @ ''token='' @ run @ post) (length pre) \<longrightarrow>
          parseToken (Some (pre @ ''token='' @ run @ post)) = Some (take 17 run))
     \<and> (no_param_before (pre @ ''token='' @ ''EC-'' @ run @ post) (length pre) \<longrightarrow>
          parseToken (Some (pre @ ''token='' @ ''EC-'' @ run @ post))
            = Some (''EC-'' @ take 17 run))
     \<and> (\<not> occurs ''token='' pre \<longrightarrow>
          parseToken (Some (pre @ ''token='' @ run @ post)) = Some (take 17 run)
          \<and> parseToken (Some (pre @ ''token='' @ ''EC-'' @ run @ post))
              = Some (''EC-'' @ take 17 run))"
proof -
  from assms(2) have len: "17 \<le> length run" by simp
  note g = match_group_run [OF assms(1) len]
  note tk = run_Token [OF assms(1) len]
  have split: "take 17 run @ drop 17 run @ post = run @ post"
    by (metis append_assoc append_take_drop_id)
  have s1: "pre @ ''token='' @ take 17 run @ drop 17 run @ post = pre @ ''token='' @ run @ post"
    by (simp only: split)
  have s2: "pre @ ''token='' @ (''EC-'' @ take 17 run) @ drop 17 run @ post
      = pre @ ''token='' @ ''EC-'' @ run @ post"
    by (simp only: append_assoc split)
  have all17: "list_all upper_alnum (take 17 run)"
    using assms(1) by (auto simp: list_all_iff dest: in_set_takeD)
  then have "\<not> prefix ''EC-'' run"
    using EC_not_run by blast
  with assms(2) have "\<not> Token run"
    by (simp add: Token_def take3_EC)
  moreover have "\<not> Token (pre @ ''token='' @ run @ post)"
    by (rule not_Token_with_equals)
  moreover have "\<exists>t p r. parseToken (Some (pre @ ''token='' @ run @ post)) = Some t \<and> Token t
      \<and> pre @ ''token='' @ run @ post = p @ ''token='' @ t @ r
      \<and> no_param_before (pre @ ''token='' @ run @ post) (length p)"
    using parseToken_leftmost(1) [OF tk(1), of pre "drop 17 run @ post"]
    by (simp only: s1)
  moreover have "parseToken (Some (pre @ ''token='' @ run @ post)) = Some (take 17 run)"
    if "no_param_before (pre @ ''token='' @ run @ post) (length pre)"
    using parseToken_leftmost(2) [OF tk(1), of pre "drop 17 run @ post"] that
    by (simp only: s1)
  moreover have "parseToken (Some (pre @ ''token='' @ ''EC-'' @ run @ post))
      = Some (''EC-'' @ take 17 run)"
    if "no_param_before (pre @ ''token='' @ ''EC-'' @ run @ post) (length pre)"
    using parseToken_leftmost(2) [OF tk(2), of pre "drop 17 run @ post"] that
    by (simp only: s2)
  moreover have "parseToken (Some (pre @ ''token='' @ run @ post)) = Some (take 17 run)"
    if "\<not> occurs ''token='' pre"
    using that by (rule parseToken_url(2) [OF g(1)])
  moreover have "parseToken (Some (pre @ ''token='' @ ''EC-'' @ run @ post))
      = Some (''EC-'' @ take 17 run)"
    if "\<not> occurs ''token='' pre"
    using that by (rule parseToken_url(2) [OF g(2)])
  ultimately show ?thesis
    by blast
qed

theorem parseToken_long_run_witness:
  "list_all upper_alnum ''ABCDE12345FGHIJ678''
   \<and> 17 < length ''ABCDE12345FGHIJ678''
   \<and> \<not> occurs ''token='' ''https://www.paypal.com/checkoutnow?''
   \<and> parseToken (Some (''https://www.paypal.com/checkoutnow?'' @ ''token=''
         @ ''ABCDE12345FGHIJ678'' @ ''&useraction=commit'')) = Some ''ABCDE12345FGHIJ67''
   \<and> parseToken (Some (''https://www.paypal.com/checkoutnow?'' @ ''token='' @ ''EC-''
         @ ''ABCDE12345FGHIJ678'' @ ''&useraction=commit'')) = Some ''EC-ABCDE12345FGHIJ67''
   \<and> no_param_before (''u?token=x&'' @ ''token='' @ ''ABCDE12345FGHIJ678'' @ ''&a=b'')
        (length ''u?token=x&'')
   \<and> parseToken (Some (''u?token=x&'' @ ''token='' @ ''ABCDE12345FGHIJ678'' @ ''&a=b''))
       = Some ''ABCDE12345FGHIJ67''"
proof -
  have h1: "list_all upper_alnum ''ABCDE12345FGHIJ678''" by code_simp
  have h2: "17 < length ''ABCDE12345FGHIJ678''" by simp
  have h3: "\<not> occurs ''token='' ''https://www.paypal.com/checkoutnow?''" by code_simp
  have t: "take 17 ''ABCDE12345FGHIJ678'' = ''ABCDE12345FGHIJ67''" by simp
  have "list_all (\<lambda>i. match_url_at (drop i (''u?token=x&'' @ ''token=''
      @ ''ABCDE12345FGHIJ678'' @ ''&a=b'')) = None) [0..<length ''u?token=x&'']"
    by code_simp
  then have h4: "no_param_before (''u?token=x&'' @ ''token='' @ ''ABCDE12345FGHIJ678'' @ ''&a=b'')
      (length ''u?token=x&'')"
    by (rule no_param_beforeI)
  from parseToken_long_run [OF h1 h2, of "''https://www.paypal.com/checkoutnow?''"
      "''&useraction=commit''"] h3
  have a: "parseToken (Some (''https://www.paypal.com/checkoutnow?'' @ ''token=''
         @ ''ABCDE12345FGHIJ678'' @ ''&useraction=commit''))
          = Some (take 17 ''ABCDE12345FGHIJ678'')"
    and b: "parseToken (Some (''https://www.paypal.com/checkoutnow?'' @ ''token='' @ ''EC-''
         @ ''ABCDE12345FGHIJ678'' @ ''&useraction=commit''))
          = Some (''EC-'' @ take 17 ''ABCDE12345FGHIJ678'')"
    by blast+
  from parseToken_long_run [OF h1 h2, of "''u?token=x&''" "''&a=b''"] h4
  have c: "parseToken (Some (''u?token=x&'' @ ''token='' @ ''ABCDE12345FGHIJ678'' @ ''&a=b''))
      = Some (take 17 ''ABCDE12345FGHIJ678'')"
    by blast
  from h1 h2 h3 h4 a b c show ?thesis
    by (simp only: t append.simps simp_thms)
qed

subsection \<open>C1: arming, then the capture of \<open>startFlow\<close> with a bare token\<close>

text \<open>
  C1, as stated, fails in two ways. (a) In an ineligible context the capture redirects
  the page and calls neither \<open>resolve\<close> nor \<open>reject\<close> (lines 93 to 96). (b) \<open>reset\<close>
  assigns the module's own functions, not what the slots held before arming: after a
  second acquisition is armed over a first one, the capture of the second leaves the
  module's functions in the slots, where the closures of the first stood before.
\<close>

theorem arm_resolve_counterexample:
  "Token ''ABCDE12345FGHIJ67''
   \<and> window_startFlow \<lparr>checkoutUrl = ''https://www.paypal.com/checkoutnow'', eligible = False\<rparr>
        (Some ''ABCDE12345FGHIJ67'') (getPaymentToken 1 (load None None))
       = Some (capture_startFlow
                \<lparr>checkoutUrl = ''https://www.paypal.com/checkoutnow'', eligible = False\<rparr>
                1 (Some ''ABCDE12345FGHIJ67'') (getPaymentToken 1 (load None None)))
   \<and> new_events (load None None)
        (snd (capture_startFlow
                \<lparr>checkoutUrl = ''https://www.paypal.com/checkoutnow'', eligible = False\<rparr>
                1 (Some ''ABCDE12345FGHIJ67'') (getPaymentToken 1 (load None None))))
       = [Log LogDebug ''paymenttoken_startflow'' (TokenPayload (Some ''ABCDE12345FGHIJ67'')),
          IsEligible False,
          Log LogDebug ''paymenttoken_startflow_ineligible''
            (TokenPayload (Some ''ABCDE12345FGHIJ67'')),
          Redirect (Some ''https://www.paypal.com/checkoutnow?token=ABCDE12345FGHIJ67'')]
   \<and> slots (checkout (getPaymentToken 1 (load None None)))
       = (Func (CapInitXO 1), Func (CapStartFlow 1), Func (CapCloseFlow 1))
   \<and> window_startFlow \<lparr>checkoutUrl = ''https://www.paypal.com/checkoutnow'', eligible = True\<rparr>
        (Some ''ABCDE12345FGHIJ67'') (getPaymentToken 2 (getPaymentToken 1 (load None None)))
       = Some (capture_startFlow
                \<lparr>checkoutUrl = ''https://www.paypal.com/checkoutnow'', eligible = True\<rparr>
                2 (Some ''ABCDE12345FGHIJ67'')
                (getPaymentToken 2 (getPaymentToken 1 (load None None))))
   \<and> slots (checkout (snd (capture_startFlow
                \<lparr>checkoutUrl = ''https://www.paypal.com/checkoutnow'', eligible = True\<rparr>
                2 (Some ''ABCDE12345FGHIJ67'')
                (getPaymentToken 2 (getPaymentToken 1 (load None None))))))
       = (Func FnInitXO, Func FnStartFlow, Func FnCloseFlow)"
proof -
  let ?tok = "''ABCDE12345FGHIJ67''"
  let ?no = "\<lparr>checkoutUrl = ''https://www.paypal.com/checkoutnow'', eligible = False\<rparr>"
  let ?yes = "\<lparr>checkoutUrl = ''https://www.paypal.com/checkoutnow'', eligible = True\<rparr>"
  let ?st0 = "load None None"
  have tok: "Token ?tok" by code_simp
  then have p: "parseToken (Some ?tok) = Some ?tok"
    by (rule parseToken_Token)
  have m: "matchToken (Some ?tok)"
    using tok by (simp add: matchToken_def)
  have url: "getFullpageRedirectUrl ?no (Some ?tok)
      = Some ''https://www.paypal.com/checkoutnow?token=ABCDE12345FGHIJ67''"
    using m by (simp add: getFullpageRedirectUrl_def js_string_def)
  have ine: "\<not> eligible ?no" and eli: "eligible ?yes"
    by simp_all
  have ev: "new_events ?st0 (snd (capture_startFlow ?no 1 (Some ?tok) (getPaymentToken 1 ?st0)))
      = [Log LogDebug ''paymenttoken_startflow'' (TokenPayload (Some ?tok)),
         IsEligible False,
         Log LogDebug ''paymenttoken_startflow_ineligible'' (TokenPayload (Some ?tok)),
         Redirect (Some ''https://www.paypal.com/checkoutnow?token=ABCDE12345FGHIJ67'')]"
    using events_of_trace [OF capture_startFlow_ineligible(2) [OF p ine, of 1 "getPaymentToken 1 ?st0"]]
    by (simp add: new_events_def getPaymentToken_simps url)
  have sl: "slots (checkout (snd (capture_startFlow ?yes 2 (Some ?tok)
        (getPaymentToken 2 (getPaymentToken 1 ?st0))))) = (Func FnInitXO, Func FnStartFlow, Func FnCloseFlow)"
    using capture_startFlow_token(3) [OF p eli m, of 2 "getPaymentToken 2 (getPaymentToken 1 ?st0)"]
    by (simp add: reset_simps module_slots_def)
  show ?thesis
    using tok ev sl by (simp only: window_startFlow_armed getPaymentToken_simps simp_thms)
qed

text \<open>
  C1, amended. In an eligible context, arming and then calling what the slot \<open>startFlow\<close>
  holds with a canonical bare token calls \<open>resolve\<close> with exactly that token, once, and
  \<open>reject\<close> not at all; afterwards the three slots hold the module's own \<open>initXO\<close>,
  \<open>startFlow\<close> and \<open>closeFlow\<close>, and the rest of the namespace is as before. These are
  the values before arming whenever the slots held the module's functions then.
\<close>

theorem arm_resolve_cycle:
  assumes "eligible e" and "Token t"
  shows "window_startFlow e (Some t) (getPaymentToken a st)
       = Some (capture_startFlow e a (Some t) (getPaymentToken a st))
     \<and> fst (capture_startFlow e a (Some t) (getPaymentToken a st)) = Inr ()
     \<and> new_events st (snd (capture_startFlow e a (Some t) (getPaymentToken a st)))
         = [Log LogDebug ''paymenttoken_startflow'' (TokenPayload (Some t)),
            IsEligible True,
            Log LogDebug ''paymenttoken_startflow_tokenpassed'' (TokenPayload (Some t)),
            Resolve a t]
     \<and> checkout (snd (capture_startFlow e a (Some t) (getPaymentToken a st)))
         = checkout (reset st)
     \<and> slots (checkout (snd (capture_startFlow e a (Some t) (getPaymentToken a st))))
         = module_slots
     \<and> (slots (checkout st) = module_slots \<longrightarrow>
          checkout (snd (capture_startFlow e a (Some t) (getPaymentToken a st))) = checkout st)"
proof -
  let ?armed = "getPaymentToken a st"
  have p: "parseToken (Some t) = Some t"
    using assms(2) by (rule parseToken_Token)
  have m: "matchToken (Some t)"
    using assms(2) by (simp add: matchToken_def)
  note c = capture_startFlow_token [OF p assms(1) m, of a ?armed]
  have ev: "new_events st (snd (capture_startFlow e a (Some t) ?armed))
      = [Log LogDebug ''paymenttoken_startflow'' (TokenPayload (Some t)),
         IsEligible True,
         Log LogDebug ''paymenttoken_startflow_tokenpassed'' (TokenPayload (Some t)),
         Resolve a t]"
    using events_of_trace [OF c(2)] by (simp add: new_events_def getPaymentToken_simps)
  have ck: "checkout (snd (capture_startFlow e a (Some t) ?armed)) = checkout (reset st)"
    using c(3) by (simp add: reset_simps)
  show ?thesis
    using c(1) ev ck by (simp add: window_startFlow_armed reset_simps reset_same)
qed

theorem arm_resolve_cycle_witness:
  "eligible \<lparr>checkoutUrl = ''https://www.paypal.com/checkoutnow'', eligible = True\<rparr>
   \<and> Token ''ABCDE12345FGHIJ67''
   \<and> slots (checkout (load None None)) = module_slots
   \<and> new_events (load None None)
        (snd (capture_startFlow
                \<lparr>checkoutUrl = ''https://www.paypal.com/checkoutnow'', eligible = True\<rparr>
                1 (Some ''ABCDE12345FGHIJ67'') (getPaymentToken 1 (load None None))))
       = [Log LogDebug ''paymenttoken_startflow'' (TokenPayload (Some ''ABCDE12345FGHIJ67'')),
          IsEligible True,
          Log LogDebug ''paymenttoken_startflow_tokenpassed''
            (TokenPayload (Some ''ABCDE12345FGHIJ67'')),
          Resolve 1 ''ABCDE12345FGHIJ67'']
   \<and> checkout (snd (capture_startFlow
                \<lparr>checkoutUrl = ''https://www.paypal.com/checkoutnow'', eligible = True\<rparr>
                1 (Some ''ABCDE12345FGHIJ67'') (getPaymentToken 1 (load None None))))
       = checkout (load None None)"
proof -
  have h1: "eligible \<lparr>checkoutUrl = ''https://www.paypal.com/checkoutnow'', eligible = True\<rparr>"
    by simp
  have h2: "Token ''ABCDE12345FGHIJ67''" by code_simp
  have h3: "slots (checkout (load None None)) = module_slots"
    by (rule load_empty)
  from arm_resolve_cycle [OF h1 h2, of 1 "load None None"] h1 h2 h3
  show ?thesis by blast
qed

subsection \<open>C2: the capture of \<open>startFlow\<close> with an input that holds no token\<close>

text \<open>
  C2, as stated, fails: the capture throws, and it does not call \<open>reject\<close>. After arming
  on a freshly loaded page, the call with \<open>not-a-token\<close> ends in the error of line 90,
  and the only events are the two log entries: no event settles the acquisition.
\<close>

theorem capture_notoken_counterexample:
  "parseToken (Some ''not-a-token'') = None
   \<and> window_startFlow \<lparr>checkoutUrl = ''https://www.paypal.com/checkoutnow'', eligible = True\<rparr>
        (Some ''not-a-token'') (getPaymentToken 1 (load None None))
       = Some (capture_startFlow
                \<lparr>checkoutUrl = ''https://www.paypal.com/checkoutnow'', eligible = True\<rparr>
                1 (Some ''not-a-token'') (getPaymentToken 1 (load None None)))
   \<and> fst (capture_startFlow
            \<lparr>checkoutUrl = ''https://www.paypal.com/checkoutnow'', eligible = True\<rparr>
            1 (Some ''not-a-token'') (getPaymentToken 1 (load None None)))
       = Inl (expected_token (Some ''not-a-token''))
   \<and> new_events (load None None)
        (snd (capture_startFlow
                \<lparr>checkoutUrl = ''https://www.paypal.com/checkoutnow'', eligible = True\<rparr>
                1 (Some ''not-a-token'') (getPaymentToken 1 (load None None))))
       = [Log LogDebug ''paymenttoken_startflow'' (TokenPayload (Some ''not-a-token'')),
          Log LogError ''paymenttoken_startflow_notoken'' (TokenPayload (Some ''not-a-token''))]
   \<and> filter (settles 1)
        (new_events (load None None)
          (snd (capture_startFlow
                  \<lparr>checkoutUrl = ''https://www.paypal.com/checkoutnow'', eligible = True\<rparr>
                  1 (Some ''not-a-token'') (getPaymentToken 1 (load None None)))))
       = []"
proof -
  let ?e = "\<lparr>checkoutUrl = ''https://www.paypal.com/checkoutnow'', eligible = True\<rparr>"
  let ?armed = "getPaymentToken 1 (load None None)"
  have p: "parseToken (Some ''not-a-token'') = None" by code_simp
  note c = capture_startFlow_notoken [OF p, of ?e 1 ?armed]
  have ev: "new_events (load None None) (snd (capture_startFlow ?e 1 (Some ''not-a-token'') ?armed))
      = [Log LogDebug ''paymenttoken_startflow'' (TokenPayload (Some ''not-a-token'')),
         Log LogError ''paymenttoken_startflow_notoken'' (TokenPayload (Some ''not-a-token''))]"
    using events_of_trace [OF c(2)] by (simp add: new_events_def getPaymentToken_simps)
  show ?thesis
    using p c(1) ev by (simp add: window_startFlow_armed)
qed

text \<open>
  C2, amended. For every armed acquisition, when what the slot \<open>startFlow\<close> holds is
  called with an input from which \<open>parseToken\<close> extracts no token, the three slots
  are reset to the module's functions, the failure is logged, and the error of line 90
  is thrown to the caller. Neither \<open>reject\<close> nor \<open>resolve\<close> of the acquisition is
  called.
\<close>

theorem capture_notoken_throws:
  assumes "parseToken token = None"
  shows "window_startFlow e token (getPaymentToken a st)
       = Some (capture_startFlow e a token (getPaymentToken a st))
     \<and> fst (capture_startFlow e a token (getPaymentToken a st)) = Inl (expected_token token)
     \<and> new_events st (snd (capture_startFlow e a token (getPaymentToken a st)))
         = [Log LogDebug ''paymenttoken_startflow'' (TokenPayload token),
            Log LogError ''paymenttoken_startflow_notoken'' (TokenPayload token)]
     \<and> filter (settles a)
          (new_events st (snd (capture_startFlow e a token (getPaymentToken a st)))) = []
     \<and> slots (checkout (snd (capture_startFlow e a token (getPaymentToken a st))))
         = module_slots"
proof -
  let ?armed = "getPaymentToken a st"
  note c = capture_startFlow_notoken [OF assms, of e a ?armed]
  have ev: "new_events st (snd (capture_startFlow e a token ?armed))
      = [Log LogDebug ''paymenttoken_startflow'' (TokenPayload token),
         Log LogError ''paymenttoken_startflow_notoken'' (TokenPayload token)]"
    using events_of_trace [OF c(2)] by (simp add: new_events_def getPaymentToken_simps)
  show ?thesis
    using c(1) c(3) ev by (simp add: window_startFlow_armed reset_simps)
qed

theorem capture_notoken_throws_witness:
  "parseToken None = None
   \<and> fst (capture_startFlow
            \<lparr>checkoutUrl = ''https://www.paypal.com/checkoutnow'', eligible = True\<rparr>
            1 None (getPaymentToken 1 (load None None)))
       = Inl (expected_token None)
   \<and> slots (checkout (snd (capture_startFlow
            \<lparr>checkoutUrl = ''https://www.paypal.com/checkoutnow'', eligible = True\<rparr>
            1 None (getPaymentToken 1 (load None None)))))
       = module_slots"
proof -
  have h: "parseToken None = None" by (simp add: parseToken_def)
  from capture_notoken_throws [OF h,
      of "\<lparr>checkoutUrl = ''https://www.paypal.com/checkoutnow'', eligible = True\<rparr>"
         1 "load None None"] h
  show ?thesis by blast
qed

subsection \<open>C3: the slots are reset before anything else but the first log entry\<close>


subsection \<open>C4: an ineligible context redirects the page\<close>

text \<open>
  C4. In an ineligible context, for every input from which \<open>parseToken\<close> extracts a
  token, \<open>startFlow\<close> returns normally after a redirect: to the checkout URL followed by
  \<open>?token=\<close> and the input when the input is a bare token, to the input itself
  otherwise. It renders no component and settles no acquisition. The capture of an armed
  acquisition does the same (and neither resolves nor rejects its own acquisition).
\<close>

theorem ineligible_redirect:
  assumes "\<not> eligible e" and "parseToken (Some s) = Some t"
  shows "fst (startFlow e (Some s) st) = Inr ()
     \<and> new_events st (snd (startFlow e (Some s) st))
         = [Log LogDebug ''startflow'' (TokenPayload (Some s)),
            IsEligible False,
            Log LogDebug ''startflow_ineligible'' NoPayload,
            Redirect (Some (if Token s then checkoutUrl e @ ''?token='' @ s else s))]
     \<and> filter renders (new_events st (snd (startFlow e (Some s) st))) = []
     \<and> filter (settles b) (new_events st (snd (startFlow e (Some s) st))) = []
     \<and> fst (capture_startFlow e a (Some s) st) = Inr ()
     \<and> new_events st (snd (capture_startFlow e a (Some s) st))
         = [Log LogDebug ''paymenttoken_startflow'' (TokenPayload (Some s)),
            IsEligible False,
            Log LogDebug ''paymenttoken_startflow_ineligible'' (TokenPayload (Some t)),
            Redirect (Some (if Token s then checkoutUrl e @ ''?token='' @ s else s))]
     \<and> filter renders (new_events st (snd (capture_startFlow e a (Some s) st))) = []
     \<and> filter (settles b) (new_events st (snd (capture_startFlow e a (Some s) st))) = []"
proof -
  note f = startFlow_ineligible [OF assms(2) assms(1), of st]
  note c = capture_startFlow_ineligible [OF assms(2) assms(1), of a st]
  have ev: "new_events st (snd (startFlow e (Some s) st))
      = [Log LogDebug ''startflow'' (TokenPayload (Some s)),
         IsEligible False,
         Log LogDebug ''startflow_ineligible'' NoPayload,
         Redirect (Some (if Token s then checkoutUrl e @ ''?token='' @ s else s))]"
    using f(2) by (simp add: new_events_def getFullpageRedirectUrl_string)
  have cev: "new_events st (snd (capture_startFlow e a (Some s) st))
      = [Log LogDebug ''paymenttoken_startflow'' (TokenPayload (Some s)),
         IsEligible False,
         Log LogDebug ''paymenttoken_startflow_ineligible'' (TokenPayload (Some t)),
         Redirect (Some (if Token s then checkoutUrl e @ ''?token='' @ s else s))]"
    using events_of_trace [OF c(2)] by (simp add: new_events_def getFullpageRedirectUrl_string)
  show ?thesis
    using f(1) c(1) by (simp add: ev cev)
qed

theorem ineligible_redirect_witness:
  "\<not> eligible \<lparr>checkoutUrl = ''https://www.paypal.com/checkoutnow'', eligible = False\<rparr>
   \<and> parseToken (Some ''ABCDE12345FGHIJ67'') = Some ''ABCDE12345FGHIJ67''
   \<and> new_events (load None None)
        (snd (startFlow \<lparr>checkoutUrl = ''https://www.paypal.com/checkoutnow'', eligible = False\<rparr>
                (Some ''ABCDE12345FGHIJ67'') (load None None)))
       = [Log LogDebug ''startflow'' (TokenPayload (Some ''ABCDE12345FGHIJ67'')),
          IsEligible False,
          Log LogDebug ''startflow_ineligible'' NoPayload,
          Redirect (Some ''https://www.paypal.com/checkoutnow?token=ABCDE12345FGHIJ67'')]"
proof -
  let ?e = "\<lparr>checkoutUrl = ''https://www.paypal.com/checkoutnow'', eligible = False\<rparr>"
  have h1: "\<not> eligible ?e" by simp
  have h2: "parseToken (Some ''ABCDE12345FGHIJ67'') = Some ''ABCDE12345FGHIJ67''" by code_simp
  have h3: "Token ''ABCDE12345FGHIJ67''" by code_simp
  from ineligible_redirect [OF h1 h2, of "load None None"]
  have "new_events (load None None) (snd (startFlow ?e (Some ''ABCDE12345FGHIJ67'') (load None None)))
       = [Log LogDebug ''startflow'' (TokenPayload (Some ''ABCDE12345FGHIJ67'')),
          IsEligible False,
          Log LogDebug ''startflow_ineligible'' NoPayload,
          Redirect (Some (if Token ''ABCDE12345FGHIJ67''
                          then checkoutUrl ?e @ ''?token='' @ ''ABCDE12345FGHIJ67''
                          else ''ABCDE12345FGHIJ67''))]"
    by blast
  with h1 h2 h3 show ?thesis
    by simp
qed

subsection \<open>C5: arming, then the capture of \<open>closeFlow\<close>\<close>

text \<open>
  C5, as stated, fails in its second part: the closure does not put back what the slots
  held before arming, it assigns the module's own functions (\<open>reset\<close>, lines 64 to 71;
  nothing saves the earlier values). After a second acquisition is armed over a first
  one, calling \<open>window.paypal.checkout.closeFlow\<close> leaves the module's functions in the
  three slots, where the closures of the first acquisition stood before the second was
  armed.
\<close>

theorem arm_reject_counterexample:
  "slots (checkout (getPaymentToken 1 (load None None)))
     = (Func (CapInitXO 1), Func (CapStartFlow 1), Func (CapCloseFlow 1))
   \<and> window_closeFlow \<lparr>checkoutUrl = ''https://www.paypal.com/checkoutnow'', eligible = True\<rparr>
        (getPaymentToken 2 (getPaymentToken 1 (load None None)))
       = Some (capture_closeFlow 2 (getPaymentToken 2 (getPaymentToken 1 (load None None))))
   \<and> slots (checkout (snd (capture_closeFlow 2
        (getPaymentToken 2 (getPaymentToken 1 (load None None))))))
       = (Func FnInitXO, Func FnStartFlow, Func FnCloseFlow)
   \<and> slots (checkout (snd (capture_closeFlow 2
        (getPaymentToken 2 (getPaymentToken 1 (load None None))))))
       \<noteq> slots (checkout (getPaymentToken 1 (load None None)))"
proof -
  let ?armed1 = "getPaymentToken 1 (load None None)"
  let ?armed2 = "getPaymentToken 2 ?armed1"
  have before: "slots (checkout ?armed1)
      = (Func (CapInitXO 1), Func (CapStartFlow 1), Func (CapCloseFlow 1))"
    by (rule getPaymentToken_simps)
  have after: "slots (checkout (snd (capture_closeFlow 2 ?armed2)))
      = (Func FnInitXO, Func FnStartFlow, Func FnCloseFlow)"
    using capture_closeFlow_trace(3) [of 2 ?armed2]
    by (simp add: reset_simps module_slots_def)
  have differ: "(Func FnInitXO, Func FnStartFlow, Func FnCloseFlow)
      \<noteq> (Func (CapInitXO 1), Func (CapStartFlow 1), Func (CapCloseFlow 1))"
    by simp
  show ?thesis
    using differ by (simp only: before after window_closeFlow_armed simp_thms)
qed

text \<open>
  C5, amended. For every armed acquisition, calling what the slot \<open>closeFlow\<close> holds
  calls \<open>reject\<close> with the error \<open>Close Flow Called\<close> and then \<open>close\<close> on the
  component, and returns normally: nothing is thrown to the caller. Afterwards the three
  slots hold the module's own \<open>initXO\<close>, \<open>startFlow\<close> and \<open>closeFlow\<close>, and the rest of
  the namespace is as before. These are the values before arming whenever the slots held
  the module's functions then.
\<close>

theorem arm_reject_cycle:
  "window_closeFlow e (getPaymentToken a st) = Some (capture_closeFlow a (getPaymentToken a st))
   \<and> fst (capture_closeFlow a (getPaymentToken a st)) = Inr ()
   \<and> new_events st (snd (capture_closeFlow a (getPaymentToken a st)))
       = [Log LogWarning ''paymenttoken_closeflow'' NoPayload,
          Reject a ''Close Flow Called'',
          Close a]
   \<and> checkout (snd (capture_closeFlow a (getPaymentToken a st))) = checkout (reset st)
   \<and> slots (checkout (snd (capture_closeFlow a (getPaymentToken a st)))) = module_slots
   \<and> (slots (checkout st) = module_slots \<longrightarrow>
        checkout (snd (capture_closeFlow a (getPaymentToken a st))) = checkout st)"
proof -
  note c = capture_closeFlow_trace [of a "getPaymentToken a st"]
  have ev: "new_events st (snd (capture_closeFlow a (getPaymentToken a st)))
       = [Log LogWarning ''paymenttoken_closeflow'' NoPayload,
          Reject a ''Close Flow Called'',
          Close a]"
    using events_of_trace [OF c(2)] by (simp add: new_events_def getPaymentToken_simps)
  show ?thesis
    using c(1) c(3) ev by (simp add: window_closeFlow_armed reset_simps reset_same)
qed

theorem arm_reject_cycle_witness:
  "slots (checkout (load None None)) = module_slots
   \<and> fst (capture_closeFlow 1 (getPaymentToken 1 (load None None))) = Inr ()
   \<and> new_events (load None None) (snd (capture_closeFlow 1 (getPaymentToken 1 (load None None))))
       = [Log LogWarning ''paymenttoken_closeflow'' NoPayload,
          Reject 1 ''Close Flow Called'',
          Close 1]
   \<and> checkout (snd (capture_closeFlow 1 (getPaymentToken 1 (load None None))))
       = checkout (load None None)"
proof -
  have h: "slots (checkout (load None None)) = module_slots"
    by (rule load_empty)
  from arm_reject_cycle
    [of "\<lparr>checkoutUrl = ''https://www.paypal.com/checkoutnow'', eligible = True\<rparr>"
        1 "load None None"] h
  show ?thesis by blast
qed

subsection \<open>C7: the module's \<open>startFlow\<close> with an input that holds no token\<close>

text \<open>
  C7. When \<open>parseToken\<close> extracts no token from the input, \<open>startFlow\<close> throws the error
  of line 295 in the call itself; the only events are two log entries, so there is no
  redirect and no rendering, and the namespace is unchanged. On a freshly loaded page
  \<open>window.paypal.checkout.startFlow\<close> is this function.
\<close>

theorem startFlow_notoken_throws:
  assumes "parseToken token = None"
  shows "fst (startFlow e token st) = Inl (expected_token token)
     \<and> new_events st (snd (startFlow e token st))
         = [Log LogDebug ''startflow'' (TokenPayload token),
            Log LogWarning ''startflow_notoken'' NoPayload]
     \<and> checkout (snd (startFlow e token st)) = checkout st
     \<and> window_startFlow e token (load None uid) = Some (startFlow e token (load None uid))"
  using startFlow_notoken [OF assms, of e st]
  by (simp add: new_events_def window_startFlow_loaded)

theorem startFlow_notoken_throws_witness:
  "parseToken (Some ''not-a-token'') = None
   \<and> fst (startFlow \<lparr>checkoutUrl = ''https://www.paypal.com/checkoutnow'', eligible = True\<rparr>
            (Some ''not-a-token'') (load None None))
       = Inl (expected_token (Some ''not-a-token''))
   \<and> new_events (load None None)
        (snd (startFlow \<lparr>checkoutUrl = ''https://www.paypal.com/checkoutnow'', eligible = True\<rparr>
                (Some ''not-a-token'') (load None None)))
       = [Log LogDebug ''startflow'' (TokenPayload (Some ''not-a-token'')),
          Log LogWarning ''startflow_notoken'' NoPayload]"
proof -
  have h: "parseToken (Some ''not-a-token'') = None" by code_simp
  from startFlow_notoken_throws [OF h,
      of "\<lparr>checkoutUrl = ''https://www.paypal.com/checkoutnow'', eligible = True\<rparr>"
         "load None None"] h
  show ?thesis by blast
qed

subsection \<open>C8: a URL updates the component before the acquisition is resolved\<close>

text \<open>
  C8. For every armed acquisition in an eligible context and every input from which
  \<open>parseToken\<close> extracts a token: when the input is not a bare token, the capture calls
  \<open>updateProps\<close> with the input as \<open>url\<close> and after that \<open>resolve\<close> with the token;
  when the input is a bare token it calls \<open>resolve\<close> with it and never \<open>updateProps\<close>.
\<close>

theorem url_updates_props:
  assumes "eligible e" and "parseToken (Some s) = Some t"
  shows "window_startFlow e (Some s) (getPaymentToken a st)
       = Some (capture_startFlow e a (Some s) (getPaymentToken a st))
     \<and> fst (capture_startFlow e a (Some s) (getPaymentToken a st)) = Inr ()
     \<and> new_events st (snd (capture_startFlow e a (Some s) (getPaymentToken a st)))
         = (if Token s then
              [Log LogDebug ''paymenttoken_startflow'' (TokenPayload (Some s)),
               IsEligible True,
               Log LogDebug ''paymenttoken_startflow_tokenpassed'' (TokenPayload (Some s)),
               Resolve a s]
            else
              [Log LogDebug ''paymenttoken_startflow'' (TokenPayload (Some s)),
               IsEligible True,
               Log LogDebug ''paymenttoken_startflow_urlpassed'' (TokenPayload (Some s)),
               UpdateProps a (Some s),
               Resolve a t])"
proof (cases "Token s")
  case True
  then have m: "matchToken (Some s)"
    by (simp add: matchToken_def)
  from True assms(2) have ts: "t = s"
    by (simp add: parseToken_Token)
  note c = capture_startFlow_token [OF assms(2) assms(1) m, of a "getPaymentToken a st"]
  show ?thesis
    using True ts c(1) events_of_trace [OF c(2)]
    by (simp add: new_events_def getPaymentToken_simps window_startFlow_armed)
next
  case False
  then have m: "\<not> matchToken (Some s)"
    by (simp add: matchToken_def)
  note c = capture_startFlow_url [OF assms(2) assms(1) m, of a "getPaymentToken a st"]
  show ?thesis
    using False c(1) events_of_trace [OF c(2)]
    by (simp add: new_events_def getPaymentToken_simps window_startFlow_armed)
qed

theorem url_updates_props_witness:
  "eligible \<lparr>checkoutUrl = ''https://www.paypal.com/checkoutnow'', eligible = True\<rparr>
   \<and> parseToken (Some ''https://www.paypal.com/checkoutnow?token=EC-ABCDE12345FGHIJ67'')
       = Some ''EC-ABCDE12345FGHIJ67''
   \<and> \<not> Token ''https://www.paypal.com/checkoutnow?token=EC-ABCDE12345FGHIJ67''
   \<and> new_events (load None None)
        (snd (capture_startFlow
                \<lparr>checkoutUrl = ''https://www.paypal.com/checkoutnow'', eligible = True\<rparr> 1
                (Some ''https://www.paypal.com/checkoutnow?token=EC-ABCDE12345FGHIJ67'')
                (getPaymentToken 1 (load None None))))
       = [Log LogDebug ''paymenttoken_startflow''
            (TokenPayload (Some ''https://www.paypal.com/checkoutnow?token=EC-ABCDE12345FGHIJ67'')),
          IsEligible True,
          Log LogDebug ''paymenttoken_startflow_urlpassed''
            (TokenPayload (Some ''https://www.paypal.com/checkoutnow?token=EC-ABCDE12345FGHIJ67'')),
          UpdateProps 1 (Some ''https://www.paypal.com/checkoutnow?token=EC-ABCDE12345FGHIJ67''),
          Resolve 1 ''EC-ABCDE12345FGHIJ67'']"
proof -
  let ?e = "\<lparr>checkoutUrl = ''https://www.paypal.com/checkoutnow'', eligible = True\<rparr>"
  let ?u = "''https://www.paypal.com/checkoutnow?token=EC-ABCDE12345FGHIJ67''"
  have h1: "eligible ?e" by simp
  have h2: "parseToken (Some ?u) = Some ''EC-ABCDE12345FGHIJ67''" by code_simp
  have h3: "\<not> Token ?u" by code_simp
  from url_updates_props [OF h1 h2, of 1 "load None None"] h3
  have "new_events (load None None)
        (snd (capture_startFlow ?e 1 (Some ?u) (getPaymentToken 1 (load None None))))
       = [Log LogDebug ''paymenttoken_startflow'' (TokenPayload (Some ?u)),
          IsEligible True,
          Log LogDebug ''paymenttoken_startflow_urlpassed'' (TokenPayload (Some ?u)),
          UpdateProps 1 (Some ?u),
          Resolve 1 ''EC-ABCDE12345FGHIJ67'']"
    by (simp only: if_False)
  with h1 h2 h3 show ?thesis
    by blast
qed

subsection \<open>C9: a second installation changes nothing\<close>

text \<open>
  C9. When \<open>window.paypal.checkout.setup\<close> is already there (a function, or any other
  value that is not falsy), the installation writes one error to the console and assigns
  nothing: \<open>setup\<close>, \<open>initXO\<close>, \<open>startFlow\<close>, \<open>closeFlow\<close> and \<open>events\<close>, and the two
  aliases under \<open>window.PAYPAL\<close>, are what they were. That is the case after any first
  installation, so installing twice leaves the namespace of the first installation.
\<close>

theorem install_idempotent:
  assumes "truthy (setup_slot (checkout st))"
  shows "install st = emit (ConsoleError already_exists) st
     \<and> new_events st (install st) = [ConsoleError already_exists]
     \<and> checkout (install st) = checkout st
     \<and> PAYPAL_checkout (install st) = PAYPAL_checkout st
     \<and> PAYPAL_apps_checkout (install st) = PAYPAL_apps_checkout st
     \<and> checkout (install (install st')) = checkout (install st')
     \<and> new_events (install st') (install (install st')) = [ConsoleError already_exists]"
proof -
  have one: "install st = emit (ConsoleError already_exists) st"
    using assms by (rule install_skipped)
  have two: "install (install st') = emit (ConsoleError already_exists) (install st')"
    using install_truthy by (rule install_skipped)
  show ?thesis
    by (simp add: one two emit_simps new_events_def) (simp add: emit_def)
qed

theorem install_idempotent_witness:
  "truthy (setup_slot (checkout (load None None)))
   \<and> setup_slot (checkout (load None None)) = Func FnSetup
   \<and> new_events (load None None) (install (load None None)) = [ConsoleError already_exists]
   \<and> checkout (install (load None None))
       = \<lparr>setup_slot = Func FnSetup, initXO_slot = Func FnInitXO,
          startFlow_slot = Func FnStartFlow, closeFlow_slot = Func FnCloseFlow,
          events_slot = EventsObject\<rparr>"
proof -
  have h: "truthy (setup_slot (checkout (load None None)))"
    by (simp add: load_empty)
  from install_idempotent [OF h, of "load None None"]
  have "new_events (load None None) (install (load None None)) = [ConsoleError already_exists]"
    and "checkout (install (load None None)) = checkout (load None None)"
    by blast+
  with h show ?thesis
    by (simp only: load_empty checkout_obj.simps simp_thms)
qed

end
